theory Spec2Isabelle
  imports Main
begin

section \<open>proc.go: one-shot commands and supervised daemons\<close>

text \<open>
  The file \<^verbatim>\<open>proc.go\<close> runs shell commands through \<^verbatim>\<open>os/exec\<close>, either once
  (\<^verbatim>\<open>RunProc\<close>, \<^verbatim>\<open>RunPreps\<close>) or in a restart loop (\<^verbatim>\<open>daemon.Run\<close>), and
  writes to a \<^verbatim>\<open>termlog\<close> stream. Whatever the operating system and the libraries
  decide (whether a pipe can be made, how a process ends, what the clock reads) is an
  input of the model; whatever the code calls is recorded, in order, in a list of calls.
\<close>

subsection \<open>Collaborators: errors, durations, log streams, calls\<close>

text \<open>A Go \<^verbatim>\<open>error\<close> value; \<^verbatim>\<open>nil\<close> is \<open>None\<close> of \<open>error option\<close>.\<close>

datatype error = Error string

text \<open>\<^verbatim>\<open>time.Duration\<close>: a count of nanoseconds.\<close>

type_synonym Duration = int

text \<open>\<^verbatim>\<open>os.Signal\<close>, by its number.\<close>

type_synonym Signal = nat

text \<open>The variadic arguments handed to a log call after its format string.\<close>

datatype arg = AString string | AError error | ADuration Duration

text \<open>
  \<^verbatim>\<open>termlog.TermLog\<close> is the logger, \<^verbatim>\<open>log.Stream(header)\<close> a stream of it that
  carries the header; the methods of a stream used by \<^verbatim>\<open>proc.go\<close> are the
  constructors of \<open>logcall\<close>, each with its format string and arguments as passed.
\<close>

datatype TermLog = TermLog

datatype Stream = Stream TermLog string

datatype logcall =
    Header
  | Say string "arg list"
  | Warn string "arg list"
  | Shout string "arg list"
  | NoticeAs string string "arg list"

text \<open>A handle on an \<^verbatim>\<open>*exec.Cmd\<close>: commands are told apart by a serial number.\<close>

type_synonym Cmd = nat

datatype pipe = Stdout | Stderr

text \<open>
  The calls \<^verbatim>\<open>proc.go\<close> makes on its collaborators. \<open>Go_logOutput p out\<close> is the
  statement \<^verbatim>\<open>go logOutput(p, out)\<close>, where \<open>out\<close> is the method value
  \<^verbatim>\<open>log.Say\<close> or \<^verbatim>\<open>log.Warn\<close>; \<open>Go_Run i\<close> is \<^verbatim>\<open>go d[i].Run()\<close>. \<open>Start\<close>
  and \<open>Wait\<close> are the calls on the command just built, \<open>Signal c sig\<close> and
  \<open>WaitOn c\<close> are \<^verbatim>\<open>c.Process.Signal(sig)\<close> and \<^verbatim>\<open>c.Wait()\<close> on a command \<open>c\<close> held
  in a daemon, \<open>Lock\<close> and \<open>Unlock\<close> are the calls on the mutex of the pen.
\<close>

datatype call =
    Log Stream logcall
  | exec_Command string "string list"
  | StdoutPipe
  | StderrPipe
  | Go_logOutput pipe Stream "string \<Rightarrow> arg list \<Rightarrow> logcall"
  | Start
  | Wait
  | Sleep Duration
  | Signal Cmd Signal
  | WaitOn Cmd
  | Go_Run nat
  | Lock
  | Unlock

text \<open>
  What the operating system does with one \<^verbatim>\<open>exec.Cmd\<close>: the error (or \<^verbatim>\<open>nil\<close>)
  that each of \<^verbatim>\<open>StdoutPipe\<close>, \<^verbatim>\<open>StderrPipe\<close>, \<^verbatim>\<open>Start\<close> and \<^verbatim>\<open>Wait\<close> returns,
  and what \<^verbatim>\<open>ProcessState.String()\<close> and \<^verbatim>\<open>ProcessState.UserTime()\<close> give once the
  process has been waited for.
\<close>

record proc =
  stdoutpipe_err :: "error option"
  stderrpipe_err :: "error option"
  start_err :: "error option"
  wait_err :: "error option"
  state_string :: string
  user_time :: Duration

text \<open>
  The three colour functions of \<^verbatim>\<open>termlog.DefaultPalette\<close> that \<^verbatim>\<open>niceHeader\<close>
  uses, each the result of \<^verbatim>\<open>SprintFunc()\<close>: a function from a text to that text
  wrapped in the colour's escape sequences.
\<close>

record Palette =
  Timestamp_Sprint :: "string \<Rightarrow> string"
  Header_Sprint :: "string \<Rightarrow> string"
  Say_Sprint :: "string \<Rightarrow> string"

text \<open>The fields of \<^verbatim>\<open>conf.Prep\<close> and \<^verbatim>\<open>conf.Daemon\<close> that \<^verbatim>\<open>proc.go\<close> reads.\<close>

record Prep =
  Prep_Command :: string

record Daemon =
  Daemon_Command :: string
  RestartSignal :: Signal

subsection \<open>niceHeader\<close>

definition lineLimit :: nat where
  "lineLimit = 80"

definition postamble :: string where
  "postamble = ''...''"

text \<open>
  The class \<^verbatim>\<open>\s\<close> of Go's regular expressions: tab, line feed, form feed,
  carriage return and space.
\<close>

definition is_space :: "char \<Rightarrow> bool" where
  "is_space c \<longleftrightarrow> c = CHR 0x09 \<or> c = CHR 0x0A \<or> c = CHR 0x0C \<or> c = CHR 0x0D \<or> c = CHR 0x20"

text \<open>
  \<^verbatim>\<open>ws.ReplaceAllString(in, repl)\<close> for \<^verbatim>\<open>ws = regexp.MustCompile(`\s\s+`)\<close>: the
  leftmost match starts at the first byte that is in the class and is followed by
  another one, \<^verbatim>\<open>+\<close> is greedy and takes every byte of the class that follows, and
  the search goes on behind the match.
\<close>

function ws_ReplaceAllString :: "string \<Rightarrow> string \<Rightarrow> string" where
  "ws_ReplaceAllString [] repl = []"
| "ws_ReplaceAllString [c] repl = [c]"
| "ws_ReplaceAllString (c # d # cs) repl =
     (if is_space c \<and> is_space d
      then repl @ ws_ReplaceAllString (dropWhile is_space cs) repl
      else c # ws_ReplaceAllString (d # cs) repl)"
  by pat_completeness auto
termination
  by (relation "measure (\<lambda>(s, repl). length s)")
     (auto simp: le_imp_less_Suc length_dropWhile_le less_Suc_eq_le intro: le_SucI)

definition niceHeader :: "Palette \<Rightarrow> string \<Rightarrow> string \<Rightarrow> string" where
  "niceHeader pal preamble inp =
     (let pre = Timestamp_Sprint pal preamble;
          post = [];
          in1 = ws_ReplaceAllString inp '' ''
      in if length in1 > lineLimit - length postamble
         then (let post = Say_Sprint pal postamble;
                   in2 = take (lineLimit - length postamble) in1
               in pre @ Header_Sprint pal in2 @ post)
         else pre @ Header_Sprint pal in1 @ post)"

subsection \<open>getShell, RunProc, RunPreps\<close>

definition getShell :: string where
  "getShell = ''/bin/sh''"

text \<open>
  \<^verbatim>\<open>RunProc(cmd, log)\<close>: the returned error and the calls made, in order. Each
  \<^verbatim>\<open>if err != nil { return err }\<close> is one \<open>case\<close>.
\<close>

definition RunProc :: "proc \<Rightarrow> string \<Rightarrow> Stream \<Rightarrow> error option \<times> call list" where
  "RunProc os cmd log =
     (let t0 = [Log log Header, exec_Command getShell [''-c'', cmd], StdoutPipe] in
      case stdoutpipe_err os of
        Some err \<Rightarrow> (Some err, t0)
      | None \<Rightarrow>
     (let t1 = t0 @ [StderrPipe] in
      case stderrpipe_err os of
        Some err \<Rightarrow> (Some err, t1)
      | None \<Rightarrow>
     (let t2 = t1 @ [Go_logOutput Stderr log Warn, Go_logOutput Stdout log Say, Start] in
      case start_err os of
        Some err \<Rightarrow> (Some err, t2)
      | None \<Rightarrow>
     (let t3 = t2 @ [Wait] in
      case wait_err os of
        Some err \<Rightarrow> (Some err, t3 @ [Log log (Shout ''%s'' [AString (state_string os)])])
      | None \<Rightarrow>
          (None, t3 @ [Log log (NoticeAs ''cmdstats'' ''run time: %s''
                                  [ADuration (user_time os)])])))))"

text \<open>
  \<^verbatim>\<open>RunPreps(preps, log)\<close>. The operating system's part is \<open>os\<close>: \<open>os k\<close> is
  what happens to the \<open>k\<close>-th command that is run (counted from 0).
\<close>

fun RunPreps :: "Palette \<Rightarrow> (nat \<Rightarrow> proc) \<Rightarrow> Prep list \<Rightarrow> TermLog \<Rightarrow> error option \<times> call list" where
  "RunPreps pal os [] log = (None, [])"
| "RunPreps pal os (p # preps) log =
     (case RunProc (os 0) (Prep_Command p)
             (Stream log (niceHeader pal ''prep: '' (Prep_Command p))) of
        (Some err, t) \<Rightarrow> (Some err, t)
      | (None, t) \<Rightarrow>
          (case RunPreps pal (\<lambda>k. os (Suc k)) preps log of (r, t') \<Rightarrow> (r, t @ t')))"


subsection \<open>Observations on a list of calls\<close>

text \<open>The commands built with \<^verbatim>\<open>exec.Command\<close>, in the order of the calls.\<close>

fun invoked :: "call list \<Rightarrow> (string \<times> string list) list" where
  "invoked [] = []"
| "invoked (exec_Command name args # t) = (name, args) # invoked t"
| "invoked (_ # t) = invoked t"

text \<open>The high-severity log lines (\<^verbatim>\<open>Shout\<close>): format string and arguments.\<close>

fun shouts :: "call list \<Rightarrow> (string \<times> arg list) list" where
  "shouts [] = []"
| "shouts (Log s (Shout f as) # t) = (f, as) # shouts t"
| "shouts (_ # t) = shouts t"

text \<open>The command line \<^verbatim>\<open>RunProc\<close> builds for a prep.\<close>

definition sh_c :: "Prep \<Rightarrow> string \<times> string list" where
  "sh_c p = (getShell, [''-c'', Prep_Command p])"

text \<open>What \<^verbatim>\<open>RunProc\<close> returns for the \<open>k\<close>-th prep of the sequence.\<close>

definition prep_result :: "Palette \<Rightarrow> (nat \<Rightarrow> proc) \<Rightarrow> TermLog \<Rightarrow> Prep list \<Rightarrow> nat \<Rightarrow> error option" where
  "prep_result pal os log preps k =
     fst (RunProc (os k) (Prep_Command (preps ! k))
            (Stream log (niceHeader pal ''prep: '' (Prep_Command (preps ! k)))))"

text \<open>A palette without colours (\<^verbatim>\<open>color.NoColor\<close>): the text is the visible text.\<close>

definition plain :: Palette where
  "plain = \<lparr>Timestamp_Sprint = (\<lambda>s. s), Header_Sprint = (\<lambda>s. s), Say_Sprint = (\<lambda>s. s)\<rparr>"

text \<open>A process that is started and ends: what \<^verbatim>\<open>Wait\<close> returns, and its state.\<close>

definition exits :: "error option \<Rightarrow> string \<Rightarrow> Duration \<Rightarrow> proc" where
  "exits err st ut = \<lparr>stdoutpipe_err = None, stderrpipe_err = None, start_err = None,
     wait_err = err, state_string = st, user_time = ut\<rparr>"

subsection \<open>Condensed whitespace, in the words of the specification\<close>

text \<open>
  A text falls into maximal runs of bytes that are all whitespace or all not
  whitespace. Condensing replaces every run of two or more whitespace bytes by one
  space and leaves every other run as it is.
\<close>

function runs :: "string \<Rightarrow> string list" where
  "runs [] = []"
| "runs (c # cs) =
     (c # takeWhile (\<lambda>d. is_space d = is_space c) cs) #
     runs (dropWhile (\<lambda>d. is_space d = is_space c) cs)"
  by pat_completeness auto
termination
  by (relation "measure length") (auto simp: le_imp_less_Suc length_dropWhile_le)

definition squeeze :: "string \<Rightarrow> string" where
  "squeeze r = (if 2 \<le> length r \<and> list_all is_space r then '' '' else r)"

definition condensed :: "string \<Rightarrow> string" where
  "condensed s = concat (map squeeze (runs s))"

subsection \<open>Time\<close>

text \<open>
  A \<^verbatim>\<open>time.Time\<close> is an instant, counted here in nanoseconds from the zero value of
  the type (January 1 of year 1, 00:00:00 UTC), which is what \<^verbatim>\<open>var lastStart time.Time\<close>
  holds before the first assignment.
\<close>

type_synonym Time = int

definition zeroTime :: Time where
  "zeroTime = 0"

definition Second :: Duration where
  "Second = 1000000000"

text \<open>\<^verbatim>\<open>const MinRestart = 1 * time.Second\<close>\<close>

definition MinRestart :: Duration where
  "MinRestart = 1 * Second"

text \<open>A \<^verbatim>\<open>Duration\<close> is an \<^verbatim>\<open>int64\<close>: its range, and its arithmetic, which wraps.\<close>

definition maxDuration :: Duration where
  "maxDuration = 2 ^ 63 - 1"

definition minDuration :: Duration where
  "minDuration = - (2 ^ 63)"

definition wrap64 :: "int \<Rightarrow> int" where
  "wrap64 x = (x + 2 ^ 63) mod 2 ^ 64 - 2 ^ 63"

text \<open>
  \<^verbatim>\<open>t.Sub(u)\<close> of the library: the difference, or the largest (smallest) duration
  when the difference is beyond it.
\<close>

definition Time_Sub :: "Time \<Rightarrow> Time \<Rightarrow> Duration" where
  "Time_Sub t u =
     (if maxDuration < t - u then maxDuration
      else if t - u < minDuration then minDuration
      else t - u)"

text \<open>
  The clock of the machine counts nanoseconds from the Unix epoch and is an input of
  the model: a natural number that the environment makes larger, never smaller.
  \<^verbatim>\<open>time.Now()\<close> is that reading moved to the origin of \<open>Time\<close> by the library's
  constant \<^verbatim>\<open>unixToInternal\<close> (in seconds). \<^verbatim>\<open>time.Sleep(d)\<close> returns after at
  least \<open>d\<close>, at once when \<open>d\<close> is not positive; \<open>late\<close> is by how much it returns
  after that.
\<close>

definition unixToInternal :: int where
  "unixToInternal = (1969 * 365 + 1969 div 4 - 1969 div 100 + 1969 div 400) * 86400"

definition time_Now :: "nat \<Rightarrow> Time" where
  "time_Now clock = unixToInternal * Second + int clock"

definition time_Sleep :: "Duration \<Rightarrow> nat \<Rightarrow> nat \<Rightarrow> nat" where
  "time_Sleep dur late clock = clock + nat dur + late"

subsection \<open>daemon: Restart, Shutdown and the Run loop\<close>

record daemon =
  conf :: Daemon
  log :: Stream
  cmd :: "Cmd option"
  stop :: bool

text \<open>
  A method with receiver \<^verbatim>\<open>d *daemon\<close> is a function from the value \<^verbatim>\<open>*d\<close> to the
  new value of \<^verbatim>\<open>*d\<close> and the calls made. \<^verbatim>\<open>d.cmd\<close> is only ever assigned after a
  successful \<^verbatim>\<open>Start\<close>, so \<^verbatim>\<open>d.cmd.Process\<close> is there whenever \<^verbatim>\<open>d.cmd\<close> is.
\<close>

definition daemon_Restart :: "daemon \<Rightarrow> daemon \<times> call list" where
  "daemon_Restart d =
     (case cmd d of
        Some c \<Rightarrow> (d, [Log (log d) Header, Signal c (RestartSignal (conf d))])
      | None \<Rightarrow> (d, []))"

definition daemon_Shutdown :: "Signal \<Rightarrow> daemon \<Rightarrow> daemon \<times> call list" where
  "daemon_Shutdown sig d =
     (let d1 = d\<lparr>stop := True\<rparr> in
      case cmd d1 of
        Some c \<Rightarrow> (d1, [Signal c sig, WaitOn c])
      | None \<Rightarrow> (d1, []))"

text \<open>
  What the environment does during one pass through the body of the loop of
  \<^verbatim>\<open>Run\<close>: the time that goes by before \<^verbatim>\<open>time.Now()\<close> on line 106 (it includes
  the life of the previous process), the time by which \<^verbatim>\<open>time.Sleep\<close> returns late,
  the time that goes by before \<^verbatim>\<open>time.Now()\<close> on line 110, what happens to the
  command, and whether another goroutine calls \<^verbatim>\<open>Shutdown\<close> on this daemon (and with
  which signal) before the loop condition is read again.
\<close>

record iter =
  before_check :: nat
  oversleep :: nat
  before_start :: nat
  os_proc :: proc
  shutdown :: "Signal option"

text \<open>
  The state of the goroutine that runs \<^verbatim>\<open>Run\<close>: the daemon \<^verbatim>\<open>*d\<close>, the local
  \<^verbatim>\<open>lastStart\<close>, the clock, the calls made so far, every value that line 110 has
  assigned to \<^verbatim>\<open>lastStart\<close> (the times of the launch attempts), whether the goroutine
  is inside \<^verbatim>\<open>c.Wait()\<close>, and whether \<^verbatim>\<open>Run\<close> has returned.
\<close>

record run_state =
  self :: daemon
  lastStart :: Time
  clock :: nat
  calls :: "call list"
  starts :: "Time list"
  waiting :: bool
  returned :: bool

text \<open>Lines 105 to 110: the header, the throttle and the new \<^verbatim>\<open>lastStart\<close>.\<close>

definition Run_throttle :: "iter \<Rightarrow> run_state \<Rightarrow> run_state" where
  "Run_throttle e s =
     (let s1 = s\<lparr>calls := calls s @ [Log (log (self s)) Header],
                 clock := clock s + before_check e\<rparr>;
          since = Time_Sub (time_Now (clock s1)) (lastStart s1);
          s2 = (if since < MinRestart
                then s1\<lparr>calls := calls s1 @ [Sleep (wrap64 (MinRestart - since))],
                        clock := time_Sleep (wrap64 (MinRestart - since)) (oversleep e) (clock s1)\<rparr>
                else s1);
          s3 = s2\<lparr>clock := clock s2 + before_start e\<rparr>
      in s3\<lparr>lastStart := time_Now (clock s3), starts := starts s3 @ [time_Now (clock s3)]\<rparr>)"

text \<open>
  Lines 111 to 131, up to the call of \<^verbatim>\<open>c.Wait()\<close>. Each \<^verbatim>\<open>continue\<close> ends the
  pass. The command built by the \<open>n\<close>-th launch attempt has the serial number \<open>n\<close>.
\<close>

definition Run_spawn :: "iter \<Rightarrow> run_state \<Rightarrow> run_state" where
  "Run_spawn e s =
     (let d = self s;
          c = length (starts s);
          s5 = s\<lparr>calls := calls s @
                 [exec_Command getShell [''-c'', Daemon_Command (conf d)], StdoutPipe]\<rparr>
      in case stdoutpipe_err (os_proc e) of
           Some err \<Rightarrow> s5\<lparr>calls := calls s5 @ [Log (log d) (Shout ''%s'' [AError err])]\<rparr>
         | None \<Rightarrow>
     (let s6 = s5\<lparr>calls := calls s5 @ [StderrPipe]\<rparr>
      in case stderrpipe_err (os_proc e) of
           Some err \<Rightarrow> s6\<lparr>calls := calls s6 @ [Log (log d) (Shout ''%s'' [AError err])]\<rparr>
         | None \<Rightarrow>
     (let s7 = s6\<lparr>calls := calls s6 @
                 [Go_logOutput Stderr (log d) Warn, Go_logOutput Stdout (log d) Say, Start]\<rparr>
      in case start_err (os_proc e) of
           Some err \<Rightarrow> s7\<lparr>calls := calls s7 @ [Log (log d) (Shout ''%s'' [AError err])]\<rparr>
         | None \<Rightarrow> s7\<lparr>self := d\<lparr>cmd := Some c\<rparr>, calls := calls s7 @ [Wait],
                       waiting := True\<rparr>)))"

text \<open>
  What other goroutines do to \<^verbatim>\<open>*d\<close> meanwhile: \<^verbatim>\<open>Shutdown\<close> is the only function
  of the file that writes a field of a daemon from outside its loop. Its calls are
  those of the other goroutine and are not added to the calls of this one.
\<close>

definition others :: "iter \<Rightarrow> run_state \<Rightarrow> run_state" where
  "others e s =
     (case shutdown e of
        None \<Rightarrow> s
      | Some sig \<Rightarrow> s\<lparr>self := fst (daemon_Shutdown sig (self s))\<rparr>)"

text \<open>Lines 131 to 135: \<^verbatim>\<open>c.Wait()\<close> returns.\<close>

definition Run_wait :: "iter \<Rightarrow> run_state \<Rightarrow> run_state" where
  "Run_wait e s =
     (if waiting s
      then (case wait_err (os_proc e) of
              Some err \<Rightarrow> s\<lparr>calls := calls s @
                             [Log (log (self s)) (Shout ''%s'' [AString (state_string (os_proc e))])],
                           waiting := False\<rparr>
            | None \<Rightarrow> s\<lparr>waiting := False\<rparr>)
      else s)"

definition Run_body :: "iter \<Rightarrow> run_state \<Rightarrow> run_state" where
  "Run_body e s = Run_wait e (others e (Run_spawn e (Run_throttle e s)))"

text \<open>
  \<^verbatim>\<open>for d.stop != true { ... }\<close>. The loop has no bound of its own: it is run against
  a list of passes, one element for each pass of the body. When the list is used up the
  state is the one at the loop condition, and \<open>returned\<close> tells whether \<^verbatim>\<open>Run\<close> has
  returned there.
\<close>

fun Run_loop :: "iter list \<Rightarrow> run_state \<Rightarrow> run_state" where
  "Run_loop [] s = (if stop (self s) then s\<lparr>returned := True\<rparr> else s)"
| "Run_loop (e # es) s =
     (if stop (self s) then s\<lparr>returned := True\<rparr> else Run_loop es (Run_body e s))"

definition Run_init :: "nat \<Rightarrow> daemon \<Rightarrow> run_state" where
  "Run_init clock0 d =
     \<lparr>self = d, lastStart = zeroTime, clock = clock0, calls = [], starts = [],
      waiting = False, returned = False\<rparr>"

definition Run :: "nat \<Rightarrow> iter list \<Rightarrow> daemon \<Rightarrow> run_state" where
  "Run clock0 es d = Run_loop es (Run_init clock0 d)"

subsection \<open>DaemonPen\<close>

text \<open>
  Where a \<^verbatim>\<open>*daemon\<close> points: at an element of the slice \<^verbatim>\<open>*dp.daemons\<close>, or at the
  variable \<^verbatim>\<open>d\<close> of a \<^verbatim>\<open>for _, d := range\<close> statement. A frame holds both. A call
  \<^verbatim>\<open>p.m()\<close> of a method with a pointer receiver reads its daemon at \<open>p\<close> and writes it
  back at \<open>p\<close>.
\<close>

datatype place = Element nat | Variable

record frame =
  slice :: "daemon list"
  variable :: daemon

fun load :: "place \<Rightarrow> frame \<Rightarrow> daemon" where
  "load (Element i) fr = slice fr ! i"
| "load Variable fr = variable fr"

fun store :: "place \<Rightarrow> daemon \<Rightarrow> frame \<Rightarrow> frame" where
  "store (Element i) v fr = fr\<lparr>slice := (slice fr)[i := v]\<rparr>"
| "store Variable v fr = fr\<lparr>variable := v\<rparr>"

definition call_on :: "place \<Rightarrow> (daemon \<Rightarrow> daemon \<times> call list) \<Rightarrow> frame \<Rightarrow> frame \<times> call list" where
  "call_on p m fr = (case m (load p fr) of (v, t) \<Rightarrow> (store p v fr, t))"

text \<open>\<^verbatim>\<open>daemons *[]daemon\<close>: \<open>None\<close> is the nil pointer.\<close>

record DaemonPen =
  daemons :: "daemon list option"

text \<open>
  \<^verbatim>\<open>Start\<close> fills a new slice and starts one goroutine for each element;
  \<^verbatim>\<open>go d[i].Run()\<close> has the element \<open>i\<close> of the slice as its receiver.
\<close>

definition DaemonPen_Start :: "Palette \<Rightarrow> Daemon list \<Rightarrow> TermLog \<Rightarrow> DaemonPen \<Rightarrow> DaemonPen \<times> call list" where
  "DaemonPen_Start pal specs lg dp =
     (let d = map (\<lambda>dmn. \<lparr>conf = dmn,
                           log = Stream lg (niceHeader pal ''daemon: '' (Daemon_Command dmn)),
                           cmd = None, stop = False\<rparr>) specs
      in (dp\<lparr>daemons := Some d\<rparr>, [Lock] @ map Go_Run [0..<length specs] @ [Unlock]))"

text \<open>
  \<^verbatim>\<open>for _, d := range *dp.daemons { d.Restart() }\<close>: in each pass the range clause
  assigns the element to the variable \<^verbatim>\<open>d\<close>, which is a copy of the struct, and
  \<^verbatim>\<open>d.Restart()\<close> is \<^verbatim>\<open>(&d).Restart()\<close>: its receiver is the variable. The same
  holds for \<^verbatim>\<open>Shutdown\<close>.
\<close>

fun range_Restart :: "nat list \<Rightarrow> daemon list \<Rightarrow> daemon list \<times> call list" where
  "range_Restart [] ds = (ds, [])"
| "range_Restart (i # js) ds =
     (case call_on Variable daemon_Restart \<lparr>slice = ds, variable = ds ! i\<rparr> of
        (fr, t) \<Rightarrow> (case range_Restart js (slice fr) of (ds', t') \<Rightarrow> (ds', t @ t')))"

definition DaemonPen_Restart :: "DaemonPen \<Rightarrow> DaemonPen \<times> call list" where
  "DaemonPen_Restart dp =
     (case daemons dp of
        None \<Rightarrow> (dp, [Lock, Unlock])
      | Some ds \<Rightarrow>
          (case range_Restart [0..<length ds] ds of
             (ds', t) \<Rightarrow> (dp\<lparr>daemons := Some ds'\<rparr>, [Lock] @ t @ [Unlock])))"

fun range_Shutdown :: "Signal \<Rightarrow> nat list \<Rightarrow> daemon list \<Rightarrow> daemon list \<times> call list" where
  "range_Shutdown sig [] ds = (ds, [])"
| "range_Shutdown sig (i # js) ds =
     (case call_on Variable (daemon_Shutdown sig) \<lparr>slice = ds, variable = ds ! i\<rparr> of
        (fr, t) \<Rightarrow> (case range_Shutdown sig js (slice fr) of (ds', t') \<Rightarrow> (ds', t @ t')))"

definition DaemonPen_Shutdown :: "Signal \<Rightarrow> DaemonPen \<Rightarrow> DaemonPen \<times> call list" where
  "DaemonPen_Shutdown sig dp =
     (case daemons dp of
        None \<Rightarrow> (dp, [Lock, Unlock])
      | Some ds \<Rightarrow>
          (case range_Shutdown sig [0..<length ds] ds of
             (ds', t) \<Rightarrow> (dp\<lparr>daemons := Some ds'\<rparr>, [Lock] @ t @ [Unlock])))"

subsection \<open>Observations on the Run loop\<close>

text \<open>Launch attempts that are at least \<open>MinRestart\<close> apart, each from the one before.\<close>

fun spaced :: "Time list \<Rightarrow> bool" where
  "spaced (x # y # zs) \<longleftrightarrow> MinRestart \<le> y - x \<and> spaced (y # zs)"
| "spaced _ \<longleftrightarrow> True"

text \<open>
  The throttle in the words of the specification: when less than the minimum interval
  has elapsed since the previous launch attempt, sleep for what remains of it.
\<close>

definition throttle :: "Duration \<Rightarrow> call list" where
  "throttle elapsed = (if elapsed < MinRestart then [Sleep (MinRestart - elapsed)] else [])"

text \<open>The command line of a daemon.\<close>

definition sh_daemon :: "daemon \<Rightarrow> string \<times> string list" where
  "sh_daemon d = (getShell, [''-c'', Daemon_Command (conf d)])"

text \<open>A command for which both pipes and the start succeed.\<close>

definition launched :: "proc \<Rightarrow> bool" where
  "launched p \<longleftrightarrow> stdoutpipe_err p = None \<and> stderrpipe_err p = None \<and> start_err p = None"

text \<open>
  What holds of the state of the loop at every pass: \<^verbatim>\<open>lastStart\<close> is not in the
  future, it is the time of the last launch attempt if there was one, and the launch
  attempts so far are spaced.
\<close>

definition good :: "run_state \<Rightarrow> bool" where
  "good s \<longleftrightarrow>
     lastStart s \<le> time_Now (clock s) \<and> spaced (starts s) \<and>
     (starts s = [] \<or> last (starts s) = lastStart s)"

subsection \<open>Example inputs\<close>

definition srv :: Daemon where
  "srv = \<lparr>Daemon_Command = ''srv'', RestartSignal = 1\<rparr>"

text \<open>The daemon that \<^verbatim>\<open>Start\<close> makes for it.\<close>

definition fresh :: daemon where
  "fresh = \<lparr>conf = srv, log = Stream TermLog ''daemon: srv'', cmd = None, stop = False\<rparr>"

text \<open>A pass in which the command exits with status 1 at once.\<close>

definition failing :: iter where
  "failing = \<lparr>before_check = 5, oversleep = 7, before_start = 11,
     os_proc = exits (Some (Error ''exit status 1'')) ''exit status 1'' 0, shutdown = None\<rparr>"

text \<open>A pass in which the command is ended by a signal.\<close>

definition killed :: iter where
  "killed = \<lparr>before_check = 5, oversleep = 7, before_start = 11,
     os_proc = exits (Some (Error ''signal: terminated'')) ''signal: terminated'' 0,
     shutdown = None\<rparr>"

text \<open>A pass in which the command cannot be started.\<close>

definition nostart :: iter where
  "nostart = \<lparr>before_check = 5, oversleep = 7, before_start = 11,
     os_proc = (exits None [] 0)\<lparr>start_err := Some (Error ''fork/exec /bin/sh: no such file'')\<rparr>,
     shutdown = None\<rparr>"

subsection \<open>logOutput\<close>

abbreviation LF :: char where "LF \<equiv> CHR 0x0A"

abbreviation CR :: char where "CR \<equiv> CHR 0x0D"

text \<open>
  The read end of a pipe, \<^verbatim>\<open>fp io.ReadCloser\<close>: the bytes that the process writes
  to it, and the error that \<^verbatim>\<open>Read\<close> returns once they are used up (\<^verbatim>\<open>io.EOF\<close>
  when the pipe is closed, or another error).
\<close>

record ReadCloser =
  content :: string
  closing :: error

text \<open>
  \<^verbatim>\<open>bufio.NewReader(fp)\<close> is a reader with a buffer of \<^verbatim>\<open>defaultBufSize\<close> bytes.
  \<^verbatim>\<open>ReadSlice('\n')\<close> of the library, on the bytes \<open>s\<close> not yet consumed and a
  buffer of \<open>n\<close> bytes: the bytes up to and including the first line feed when it is
  among the first \<open>n\<close> bytes; otherwise everything that is left, with the error of the
  stream, when that is less than a buffer; otherwise the \<open>n\<close> bytes of the full
  buffer, with \<^verbatim>\<open>ErrBufferFull\<close>. The second component is what is left to read.
\<close>

definition defaultBufSize :: nat where
  "defaultBufSize = 4096"

datatype read_err = BufferFull | Underlying error

definition ReadSlice :: "nat \<Rightarrow> string \<Rightarrow> error \<Rightarrow> (string \<times> read_err option) \<times> string" where
  "ReadSlice n s final =
     (let i = length (takeWhile (\<lambda>c. c \<noteq> LF) s)
      in if i < length s \<and> i < n then ((take (Suc i) s, None), drop (Suc i) s)
         else if length s < n then ((s, Some (Underlying final)), [])
         else ((take n s, Some BufferFull), drop n s))"

text \<open>
  \<^verbatim>\<open>ReadLine()\<close> of the library, which returns the line, \<^verbatim>\<open>isPrefix\<close> and the
  error. On \<^verbatim>\<open>ErrBufferFull\<close> it returns what the buffer holds with \<^verbatim>\<open>isPrefix\<close>
  set, and puts a carriage return at the end back to be read again. Otherwise an empty
  slice is returned with the error, and every other slice without error and without
  its line feed, or carriage return and line feed.
\<close>

definition ReadLine :: "nat \<Rightarrow> string \<Rightarrow> error \<Rightarrow> (string \<times> bool \<times> error option) \<times> string" where
  "ReadLine n s final =
     (case ReadSlice n s final of
        ((line, err), rest) \<Rightarrow>
          if err = Some BufferFull
          then (if 0 < length line \<and> line ! (length line - 1) = CR
                then ((take (length line - 1) line, True, None), CR # rest)
                else ((line, True, None), rest))
          else if length line = 0
          then (([], False, (case err of Some (Underlying e) \<Rightarrow> Some e | _ \<Rightarrow> None)), rest)
          else if line ! (length line - 1) = LF
          then (let drp = (if 1 < length line \<and> line ! (length line - 2) = CR then 2 else 1)
                in ((take (length line - drp) line, False, None), rest))
          else ((line, False, None), rest))"

lemma ReadLine_progress:
  assumes "((line, p, None), rest) = ReadLine defaultBufSize s final"
  shows "length rest < length s"
proof -
  have nonempty: "s \<noteq> []"
    using assms
    by (auto simp: ReadLine_def ReadSlice_def Let_def defaultBufSize_def split: if_splits)
  then have "0 < length s" by simp
  then show ?thesis
    using assms
    by (auto simp: ReadLine_def ReadSlice_def Let_def defaultBufSize_def split: if_splits)
qed

text \<open>
  The loop of \<^verbatim>\<open>logOutput\<close>: the calls of the sink \<^verbatim>\<open>out\<close>, in order. The line is
  passed as the first argument of the sink and nothing after it; \<^verbatim>\<open>isPrefix\<close> is
  the blank identifier of the source. The goroutine that \<open>Go_logOutput p log out\<close>
  starts makes these calls on the stream \<open>log\<close>.
\<close>

function logOutput_loop :: "string \<Rightarrow> error \<Rightarrow> (string \<Rightarrow> arg list \<Rightarrow> logcall) \<Rightarrow> logcall list" where
  "logOutput_loop s final out =
     (case ReadLine defaultBufSize s final of
        ((line, isPrefix, Some err), rest) \<Rightarrow> []
      | ((line, isPrefix, None), rest) \<Rightarrow> out line [] # logOutput_loop rest final out)"
  by pat_completeness auto
termination
  by (relation "measure (\<lambda>(s, final, out). length s)") (auto intro: ReadLine_progress)

declare logOutput_loop.simps [simp del]

definition logOutput :: "ReadCloser \<Rightarrow> (string \<Rightarrow> arg list \<Rightarrow> logcall) \<Rightarrow> logcall list" where
  "logOutput fp out = logOutput_loop (content fp) (closing fp) out"

text \<open>A line in the words of the claim: its bytes, then the line feed that ends it.\<close>

definition terminated :: "string \<Rightarrow> string" where
  "terminated l = l @ [LF]"

text \<open>A line without the carriage return in front of its line feed, if it has one.\<close>

definition chomp :: "string \<Rightarrow> string" where
  "chomp l = (if l \<noteq> [] \<and> last l = CR then butlast l else l)"

section \<open>Properties\<close>

subsection \<open>RunProc and RunPreps\<close>

lemma invoked_append: "invoked (t @ t') = invoked t @ invoked t'"
  by (induction t rule: invoked.induct) simp_all

lemma invoked_RunProc: "invoked (snd (RunProc os command lg)) = [(getShell, [''-c'', command])]"
  by (simp add: RunProc_def Let_def split: option.splits)

lemma RunPreps_fail:
  "N < length preps \<Longrightarrow> (\<forall>k<N. prep_result pal os lg preps k = None) \<Longrightarrow>
   prep_result pal os lg preps N = Some e \<Longrightarrow>
   fst (RunPreps pal os preps lg) = Some e \<and>
   invoked (snd (RunPreps pal os preps lg)) = map sh_c (take (Suc N) preps)"
proof (induction preps arbitrary: os N)
  case Nil
  then show ?case by simp
next
  case (Cons p preps)
  let ?run = "RunProc (os 0) (Prep_Command p)
                (Stream lg (niceHeader pal ''prep: '' (Prep_Command p)))"
  obtain r t where rt: "?run = (r, t)"
    by (cases ?run)
  have r0: "prep_result pal os lg (p # preps) 0 = r"
    using rt by (simp add: prep_result_def)
  have inv: "invoked t = [sh_c p]"
    using invoked_RunProc [of "os 0" "Prep_Command p"
        "Stream lg (niceHeader pal ''prep: '' (Prep_Command p))"] rt
    by (simp add: sh_c_def)
  show ?case
  proof (cases N)
    case 0
    with Cons.prems r0 have "r = Some e" by simp
    with rt inv 0 show ?thesis by simp
  next
    case (Suc M)
    with Cons.prems r0 have rn: "r = None" by auto
    have shift: "\<And>k. prep_result pal (\<lambda>k. os (Suc k)) lg preps k =
                     prep_result pal os lg (p # preps) (Suc k)"
      by (simp add: prep_result_def)
    have "fst (RunPreps pal (\<lambda>k. os (Suc k)) preps lg) = Some e \<and>
      invoked (snd (RunPreps pal (\<lambda>k. os (Suc k)) preps lg)) = map sh_c (take (Suc M) preps)"
      using Cons.prems Suc by (intro Cons.IH) (auto simp: shift)
    with rt rn inv Suc show ?thesis
      by (auto simp: invoked_append split: prod.splits)
  qed
qed

lemma RunPreps_ok:
  "(\<forall>k<length preps. prep_result pal os lg preps k = None) \<Longrightarrow>
   fst (RunPreps pal os preps lg) = None \<and>
   invoked (snd (RunPreps pal os preps lg)) = map sh_c preps"
proof (induction preps arbitrary: os)
  case Nil
  then show ?case by simp
next
  case (Cons p preps)
  let ?run = "RunProc (os 0) (Prep_Command p)
                (Stream lg (niceHeader pal ''prep: '' (Prep_Command p)))"
  obtain r t where rt: "?run = (r, t)"
    by (cases ?run)
  have r0: "prep_result pal os lg (p # preps) 0 = r"
    using rt by (simp add: prep_result_def)
  have inv: "invoked t = [sh_c p]"
    using invoked_RunProc [of "os 0" "Prep_Command p"
        "Stream lg (niceHeader pal ''prep: '' (Prep_Command p))"] rt
    by (simp add: sh_c_def)
  from Cons.prems r0 have rn: "r = None" by auto
  have shift: "\<And>k. prep_result pal (\<lambda>k. os (Suc k)) lg preps k =
                   prep_result pal os lg (p # preps) (Suc k)"
    by (simp add: prep_result_def)
  have "fst (RunPreps pal (\<lambda>k. os (Suc k)) preps lg) = None \<and>
      invoked (snd (RunPreps pal (\<lambda>k. os (Suc k)) preps lg)) = map sh_c preps"
    using Cons.prems by (intro Cons.IH) (auto simp: shift)
  with rt rn inv show ?case
    by (auto simp: invoked_append split: prod.splits)
qed

text \<open>
  C3. \<^verbatim>\<open>RunPreps\<close> runs the preps in order. If the \<open>N\<close>-th command is the first
  whose \<^verbatim>\<open>RunProc\<close> returns an error, that error is returned and the commands built
  are exactly those of the preps \<open>0..N\<close>, in order: no later one is invoked. If every
  command succeeds, no error is returned and every command has been invoked, in order.
  For the empty sequence no error is returned and no call at all is made.
\<close>

theorem RunPreps_first_error:
  "(N < length preps \<and> (\<forall>k<N. prep_result pal os lg preps k = None) \<and>
    prep_result pal os lg preps N = Some e \<longrightarrow>
      fst (RunPreps pal os preps lg) = Some e \<and>
      invoked (snd (RunPreps pal os preps lg)) = map sh_c (take (Suc N) preps)) \<and>
   ((\<forall>k<length preps. prep_result pal os lg preps k = None) \<longrightarrow>
      fst (RunPreps pal os preps lg) = None \<and>
      invoked (snd (RunPreps pal os preps lg)) = map sh_c preps) \<and>
   RunPreps pal os [] lg = (None, [])"
  using RunPreps_fail [of N preps pal os lg e] RunPreps_ok [of preps pal os lg]
  by simp

text \<open>
  Three preps of which the second exits with status 1: the third is never invoked. Two
  preps that both succeed: both are invoked and no error is returned.
\<close>

theorem RunPreps_first_error_witness:
  "(let preps = [\<lparr>Prep_Command = ''make''\<rparr>, \<lparr>Prep_Command = ''false''\<rparr>,
                 \<lparr>Prep_Command = ''echo no''\<rparr>];
        os = (\<lambda>k. if k = 1 then exits (Some (Error ''exit status 1'')) ''exit status 1'' 0
                   else exits None ''exit status 0'' 0)
    in fst (RunPreps plain os preps TermLog) = Some (Error ''exit status 1'') \<and>
       invoked (snd (RunPreps plain os preps TermLog)) =
         [(''/bin/sh'', [''-c'', ''make'']), (''/bin/sh'', [''-c'', ''false''])]) \<and>
   (let preps = [\<lparr>Prep_Command = ''make''\<rparr>, \<lparr>Prep_Command = ''true''\<rparr>];
        os = (\<lambda>k. exits None ''exit status 0'' 0)
    in fst (RunPreps plain os preps TermLog) = None \<and>
       invoked (snd (RunPreps plain os preps TermLog)) =
         [(''/bin/sh'', [''-c'', ''make'']), (''/bin/sh'', [''-c'', ''true''])])"
proof -
  let ?p3 = "[\<lparr>Prep_Command = ''make''\<rparr>, \<lparr>Prep_Command = ''false''\<rparr>,
              \<lparr>Prep_Command = ''echo no''\<rparr>]"
  let ?os1 = "\<lambda>k::nat. if k = 1 then exits (Some (Error ''exit status 1'')) ''exit status 1'' 0
                   else exits None ''exit status 0'' 0"
  let ?p2 = "[\<lparr>Prep_Command = ''make''\<rparr>, \<lparr>Prep_Command = ''true''\<rparr>]"
  let ?os2 = "\<lambda>k::nat. exits None ''exit status 0'' 0"
  have h1: "(1::nat) < length ?p3 \<and> (\<forall>k<1. prep_result plain ?os1 TermLog ?p3 k = None) \<and>
        prep_result plain ?os1 TermLog ?p3 1 = Some (Error ''exit status 1'')"
    by (simp add: prep_result_def RunProc_def exits_def)
  have h2: "\<forall>k<length ?p2. prep_result plain ?os2 TermLog ?p2 k = None"
    by (simp add: prep_result_def RunProc_def exits_def)
  show ?thesis
    using h1 h2
      RunPreps_first_error [of 1 ?p3 plain ?os1 TermLog "Error ''exit status 1''"]
      RunPreps_first_error [of 0 ?p2 plain ?os2 TermLog "Error ''x''"]
    by (simp add: sh_c_def getShell_def)
qed

text \<open>
  C7. Once the process has been started and \<^verbatim>\<open>Wait\<close> has returned: if \<^verbatim>\<open>Wait\<close>
  gave an error, \<^verbatim>\<open>RunProc\<close> makes one \<^verbatim>\<open>Shout\<close> call, the only one of the whole
  run, whose text is the process's termination description, makes no further call and
  returns that error; if \<^verbatim>\<open>Wait\<close> gave no error, it makes one \<^verbatim>\<open>NoticeAs\<close> call with
  the user CPU time of the process, no \<^verbatim>\<open>Shout\<close> call, and returns no error.
\<close>

theorem RunProc_after_exit:
  assumes "stdoutpipe_err os = None" and "stderrpipe_err os = None" and "start_err os = None"
  shows "(wait_err os = Some err \<longrightarrow>
            fst (RunProc os command lg) = Some err \<and>
            shouts (snd (RunProc os command lg)) = [(''%s'', [AString (state_string os)])] \<and>
            dropWhile (\<lambda>c. c \<noteq> Wait) (snd (RunProc os command lg)) =
              [Wait, Log lg (Shout ''%s'' [AString (state_string os)])]) \<and>
         (wait_err os = None \<longrightarrow>
            fst (RunProc os command lg) = None \<and>
            shouts (snd (RunProc os command lg)) = [] \<and>
            dropWhile (\<lambda>c. c \<noteq> Wait) (snd (RunProc os command lg)) =
              [Wait, Log lg (NoticeAs ''cmdstats'' ''run time: %s''
                                [ADuration (user_time os)])])"
  using assms by (simp add: RunProc_def)

text \<open>A command that ends with status 2, and one that ends well after 1.5 ms of CPU time.\<close>

theorem RunProc_after_exit_witness:
  "(let os = exits (Some (Error ''exit status 2'')) ''exit status 2'' 0;
        lg = Stream TermLog ''prep: make''
    in fst (RunProc os ''make'' lg) = Some (Error ''exit status 2'') \<and>
       shouts (snd (RunProc os ''make'' lg)) = [(''%s'', [AString ''exit status 2''])] \<and>
       dropWhile (\<lambda>c. c \<noteq> Wait) (snd (RunProc os ''make'' lg)) =
         [Wait, Log lg (Shout ''%s'' [AString ''exit status 2''])]) \<and>
   (let os = exits None ''exit status 0'' 1500000;
        lg = Stream TermLog ''prep: make''
    in fst (RunProc os ''make'' lg) = None \<and>
       shouts (snd (RunProc os ''make'' lg)) = [] \<and>
       dropWhile (\<lambda>c. c \<noteq> Wait) (snd (RunProc os ''make'' lg)) =
         [Wait, Log lg (NoticeAs ''cmdstats'' ''run time: %s'' [ADuration 1500000])])"
  using RunProc_after_exit [of "exits (Some (Error ''exit status 2'')) ''exit status 2'' 0"
          "Error ''exit status 2''" "''make''" "Stream TermLog ''prep: make''"]
        RunProc_after_exit [of "exits None ''exit status 0'' 1500000"
          "Error ''x''" "''make''" "Stream TermLog ''prep: make''"]
  by (simp add: exits_def)

text \<open>
  C2, as the code has it. Each of the three kinds of failure is returned to the caller
  as the error of \<^verbatim>\<open>RunProc\<close>. Only the third is logged: when a pipe cannot be made or
  the process cannot be started, \<^verbatim>\<open>RunProc\<close> returns the error and makes no
  \<^verbatim>\<open>Shout\<close> call; when the started process ends with an error, it makes one \<^verbatim>\<open>Shout\<close>
  call with the termination description.
\<close>

theorem RunProc_failure_classes:
  "((stdoutpipe_err os = Some e \<or> stdoutpipe_err os = None \<and> stderrpipe_err os = Some e) \<longrightarrow>
      fst (RunProc os command lg) = Some e \<and> shouts (snd (RunProc os command lg)) = []) \<and>
   (stdoutpipe_err os = None \<and> stderrpipe_err os = None \<and> start_err os = Some e \<longrightarrow>
      fst (RunProc os command lg) = Some e \<and> shouts (snd (RunProc os command lg)) = []) \<and>
   (stdoutpipe_err os = None \<and> stderrpipe_err os = None \<and> start_err os = None \<and>
    wait_err os = Some e \<longrightarrow>
      fst (RunProc os command lg) = Some e \<and>
      shouts (snd (RunProc os command lg)) = [(''%s'', [AString (state_string os)])])"
  by (auto simp: RunProc_def)

text \<open>One input for each kind: no pipe, no start, exit status 1.\<close>

theorem RunProc_failure_classes_witness:
  "(let os = (exits None [] 0)\<lparr>stderrpipe_err := Some (Error ''pipe: too many open files'')\<rparr>
    in fst (RunProc os ''make'' (Stream TermLog ''prep: make'')) =
         Some (Error ''pipe: too many open files'') \<and>
       shouts (snd (RunProc os ''make'' (Stream TermLog ''prep: make''))) = []) \<and>
   (let os = (exits None [] 0)\<lparr>start_err := Some (Error ''fork/exec /bin/sh: no such file'')\<rparr>
    in fst (RunProc os ''make'' (Stream TermLog ''prep: make'')) =
         Some (Error ''fork/exec /bin/sh: no such file'') \<and>
       shouts (snd (RunProc os ''make'' (Stream TermLog ''prep: make''))) = []) \<and>
   (let os = exits (Some (Error ''exit status 1'')) ''exit status 1'' 0
    in fst (RunProc os ''make'' (Stream TermLog ''prep: make'')) = Some (Error ''exit status 1'') \<and>
       shouts (snd (RunProc os ''make'' (Stream TermLog ''prep: make''))) =
         [(''%s'', [AString ''exit status 1''])])"
  using
    RunProc_failure_classes [of
      "(exits None [] 0)\<lparr>stderrpipe_err := Some (Error ''pipe: too many open files'')\<rparr>"
      "Error ''pipe: too many open files''" "''make''" "Stream TermLog ''prep: make''"]
    RunProc_failure_classes [of
      "(exits None [] 0)\<lparr>start_err := Some (Error ''fork/exec /bin/sh: no such file'')\<rparr>"
      "Error ''fork/exec /bin/sh: no such file''" "''make''" "Stream TermLog ''prep: make''"]
    RunProc_failure_classes [of "exits (Some (Error ''exit status 1'')) ''exit status 1'' 0"
      "Error ''exit status 1''" "''make''" "Stream TermLog ''prep: make''"]
  by (simp add: exits_def)

text \<open>
  When the standard output pipe cannot be made, the error is returned but nothing is
  logged at high severity; the same holds when the process cannot be started.
\<close>

theorem RunProc_setup_failure_not_logged:
  "fst (RunProc ((exits None [] 0)\<lparr>stdoutpipe_err := Some (Error ''pipe: too many open files'')\<rparr>)
          ''make'' (Stream TermLog ''prep: make''))
     = Some (Error ''pipe: too many open files'') \<and>
   shouts (snd (RunProc ((exits None [] 0)\<lparr>stdoutpipe_err := Some (Error ''pipe: too many open files'')\<rparr>)
                  ''make'' (Stream TermLog ''prep: make''))) = [] \<and>
   fst (RunProc ((exits None [] 0)\<lparr>start_err := Some (Error ''fork/exec /bin/sh: no such file'')\<rparr>)
          ''make'' (Stream TermLog ''prep: make''))
     = Some (Error ''fork/exec /bin/sh: no such file'') \<and>
   shouts (snd (RunProc ((exits None [] 0)\<lparr>start_err := Some (Error ''fork/exec /bin/sh: no such file'')\<rparr>)
                  ''make'' (Stream TermLog ''prep: make''))) = []"
  by (simp add: RunProc_def exits_def)

subsection \<open>niceHeader\<close>

lemma concat_runs: "concat (runs s) = s"
  by (induction s rule: runs.induct) simp_all

lemma condensed_nonspace: "\<not> is_space c \<Longrightarrow> condensed (c # xs) = c # condensed xs"
  by (cases xs) (auto simp: condensed_def squeeze_def)

lemma condensed_single:
  "is_space c \<Longrightarrow> \<not> is_space d \<Longrightarrow> condensed (c # d # cs) = c # condensed (d # cs)"
  by (auto simp: condensed_def squeeze_def)

lemma condensed_run:
  "is_space c \<Longrightarrow> is_space d \<Longrightarrow>
   condensed (c # d # cs) = '' '' @ condensed (dropWhile is_space cs)"
  by (auto simp: condensed_def squeeze_def list_all_iff dest: set_takeWhileD)

lemma ws_ReplaceAllString_condensed: "ws_ReplaceAllString s '' '' = condensed s"
proof (induction s "'' ''" rule: ws_ReplaceAllString.induct)
  case 1
  show ?case by (simp add: condensed_def)
next
  case (2 c)
  show ?case by (simp add: condensed_def squeeze_def)
next
  case (3 c d cs)
  show ?case
  proof (cases "is_space c \<and> is_space d")
    case True
    with 3 show ?thesis by (simp add: condensed_run)
  next
    case False
    with 3 have "ws_ReplaceAllString (c # d # cs) '' '' = c # condensed (d # cs)" by auto
    moreover have "condensed (c # d # cs) = c # condensed (d # cs)"
      using False condensed_nonspace [of c "d # cs"] condensed_single [of c d cs] by blast
    ultimately show ?thesis by simp
  qed
qed

text \<open>
  What \<^verbatim>\<open>niceHeader\<close> computes, without colours. Every run of two or more
  whitespace bytes of the command text is replaced by one space. When the condensed
  text is longer than 77 bytes it is cut to its first 77 bytes (whatever character the
  77th byte belongs to) and followed by \<^verbatim>\<open>...\<close>. The preamble is put in front of
  that, and the length of the result is bounded only relative to the preamble.
\<close>

lemma niceHeader_label:
  "ws_ReplaceAllString inp '' '' = condensed inp \<and>
   (length (condensed inp) \<le> 77 \<longrightarrow>
      niceHeader plain preamble inp = preamble @ condensed inp) \<and>
   (77 < length (condensed inp) \<longrightarrow>
      niceHeader plain preamble inp = preamble @ take 77 (condensed inp) @ ''...'') \<and>
   length (niceHeader plain preamble inp) \<le> length preamble + 80"
  by (auto simp: niceHeader_def ws_ReplaceAllString_condensed plain_def lineLimit_def
        postamble_def Let_def)

text \<open>
  A command written over several lines, and one whose bytes 77 and 78 are the two
  bytes of one character (U+00E9 in UTF-8): the cut falls between them.
\<close>

lemma niceHeader_label_witness:
  "niceHeader plain ''prep: '' ''go  build \<newline>\<newline>   ./...'' = ''prep: go build ./...'' \<and>
   niceHeader plain ''prep: ''
       (replicate 76 CHR ''a'' @ [CHR 0xC3, CHR 0xA9, CHR ''b'', CHR ''c'']) =
     ''prep: '' @ replicate 76 CHR ''a'' @ [CHR 0xC3] @ ''...''"
proof -
  have c1: "condensed ''go  build \<newline>\<newline>   ./...'' = ''go build ./...''"
    by (simp add: condensed_def squeeze_def is_space_def)
  have c2: "condensed (replicate 76 CHR ''a'' @ [CHR 0xC3, CHR 0xA9, CHR ''b'', CHR ''c'']) =
            replicate 76 CHR ''a'' @ [CHR 0xC3, CHR 0xA9, CHR ''b'', CHR ''c'']"
    by code_simp
  show ?thesis
    using c1 c2 niceHeader_label [of "''go  build \<newline>\<newline>   ./...''" "''prep: ''"]
      niceHeader_label [of "replicate 76 CHR ''a'' @ [CHR 0xC3, CHR 0xA9, CHR ''b'', CHR ''c'']"
        "''prep: ''"]
    by simp
qed


subsection \<open>The Run loop\<close>

lemma spaced_snoc: "spaced (xs @ [t]) \<longleftrightarrow> spaced xs \<and> (xs = [] \<or> MinRestart \<le> t - last xs)"
  by (induction xs rule: spaced.induct) auto

lemma Time_Sub_nonneg:
  assumes "u \<le> t"
  shows "(Time_Sub t u < MinRestart) = (t - u < MinRestart)"
    and "t - u < MinRestart \<Longrightarrow> Time_Sub t u = t - u"
  using assms by (auto simp: Time_Sub_def MinRestart_def Second_def maxDuration_def minDuration_def)

lemma wrap64_small: "0 \<le> x \<Longrightarrow> x \<le> MinRestart \<Longrightarrow> wrap64 x = x"
  by (simp add: wrap64_def MinRestart_def Second_def)

lemma wrap64_remaining:
  "u \<le> t \<Longrightarrow> t - u < MinRestart \<Longrightarrow> wrap64 (MinRestart - (t - u)) = MinRestart - (t - u)"
  by (rule wrap64_small) simp_all

lemma time_Now_mono: "time_Now a \<le> time_Now (a + b)"
  by (simp add: time_Now_def)

lemma Run_throttle_calls:
  assumes "lastStart s \<le> time_Now (clock s)"
  shows "calls (Run_throttle e s) =
           calls s @ Log (log (self s)) Header #
             throttle (time_Now (clock s + before_check e) - lastStart s)"
proof -
  have le: "lastStart s \<le> time_Now (clock s + before_check e)"
    using assms time_Now_mono [of "clock s" "before_check e"] by linarith
  show ?thesis
    using Time_Sub_nonneg [OF le] wrap64_remaining [OF le]
    by (auto simp: Run_throttle_def Let_def throttle_def)
qed

lemma Run_throttle_time:
  assumes "lastStart s \<le> time_Now (clock s)"
  shows "lastStart s + MinRestart \<le> lastStart (Run_throttle e s)"
    and "lastStart (Run_throttle e s) = time_Now (clock (Run_throttle e s))"
    and "starts (Run_throttle e s) = starts s @ [lastStart (Run_throttle e s)]"
proof -
  have le: "lastStart s \<le> time_Now (clock s + before_check e)"
    using assms time_Now_mono [of "clock s" "before_check e"] by linarith
  show "lastStart s + MinRestart \<le> lastStart (Run_throttle e s)"
    using Time_Sub_nonneg [OF le] wrap64_remaining [OF le] le
    by (auto simp: Run_throttle_def Let_def time_Sleep_def time_Now_def)
  show "lastStart (Run_throttle e s) = time_Now (clock (Run_throttle e s))"
    by (simp add: Run_throttle_def Let_def)
  show "starts (Run_throttle e s) = starts s @ [lastStart (Run_throttle e s)]"
    by (simp add: Run_throttle_def Let_def)
qed

lemma Run_throttle_frame:
  "self (Run_throttle e s) = self s" "returned (Run_throttle e s) = returned s"
  by (simp_all add: Run_throttle_def Let_def)

lemma Run_throttle_prefix: "\<exists>t. calls (Run_throttle e s) = calls s @ t"
  by (simp add: Run_throttle_def Let_def)

lemma Run_throttle_invoked: "invoked (calls (Run_throttle e s)) = invoked (calls s)"
  by (simp add: Run_throttle_def Let_def invoked_append)

lemma Run_spawn_frame:
  "clock (Run_spawn e s) = clock s" "lastStart (Run_spawn e s) = lastStart s"
  "starts (Run_spawn e s) = starts s" "returned (Run_spawn e s) = returned s"
  "stop (self (Run_spawn e s)) = stop (self s)" "conf (self (Run_spawn e s)) = conf (self s)"
  "log (self (Run_spawn e s)) = log (self s)"
  by (simp_all add: Run_spawn_def Let_def split: option.splits)

lemma Run_spawn_calls:
  "\<exists>rest. calls (Run_spawn e s) = calls s @ exec_Command getShell [''-c'', Daemon_Command (conf (self s))] # rest"
  by (simp add: Run_spawn_def Let_def split: option.splits)

lemma Run_spawn_invoked:
  "invoked (calls (Run_spawn e s)) = invoked (calls s) @ [sh_daemon (self s)]"
  by (simp add: Run_spawn_def Let_def invoked_append sh_daemon_def split: option.splits)

lemma others_frame:
  "clock (others e s) = clock s" "lastStart (others e s) = lastStart s"
  "starts (others e s) = starts s" "returned (others e s) = returned s"
  "calls (others e s) = calls s"
  "conf (self (others e s)) = conf (self s)"
  "log (self (others e s)) = log (self s)"
  "cmd (self (others e s)) = cmd (self s)"
  "stop (self (others e s)) = (stop (self s) \<or> shutdown e \<noteq> None)"
  by (simp_all add: others_def daemon_Shutdown_def Let_def split: option.splits)

lemma Run_wait_frame:
  "clock (Run_wait e s) = clock s" "lastStart (Run_wait e s) = lastStart s"
  "starts (Run_wait e s) = starts s" "returned (Run_wait e s) = returned s"
  "self (Run_wait e s) = self s"
  by (simp_all add: Run_wait_def split: option.splits)

lemma Run_wait_calls: "\<exists>rest. calls (Run_wait e s) = calls s @ rest"
  by (simp add: Run_wait_def split: option.splits)

lemma Run_wait_invoked: "invoked (calls (Run_wait e s)) = invoked (calls s)"
  by (simp add: Run_wait_def invoked_append split: option.splits)

lemma Run_body_time:
  assumes "lastStart s \<le> time_Now (clock s)"
  shows "lastStart s + MinRestart \<le> lastStart (Run_body e s)"
    and "lastStart (Run_body e s) = time_Now (clock (Run_body e s))"
    and "starts (Run_body e s) = starts s @ [lastStart (Run_body e s)]"
  using Run_throttle_time [OF assms, of e]
  by (simp_all add: Run_body_def Run_wait_frame others_frame Run_spawn_frame)

lemma Run_body_self:
  "conf (self (Run_body e s)) = conf (self s)"
  "log (self (Run_body e s)) = log (self s)"
  "stop (self (Run_body e s)) = (stop (self s) \<or> shutdown e \<noteq> None)"
  "returned (Run_body e s) = returned s"
  by (simp_all add: Run_body_def Run_wait_frame others_frame Run_spawn_frame Run_throttle_frame)

lemma Run_body_invoked:
  "invoked (calls (Run_body e s)) = invoked (calls s) @ [sh_daemon (self s)]"
  by (simp add: Run_body_def Run_wait_invoked others_frame Run_spawn_invoked
        Run_throttle_invoked Run_throttle_frame)

lemma Run_body_calls:
  assumes "lastStart s \<le> time_Now (clock s)"
  shows "\<exists>rest. calls (Run_body e s) =
           calls s @ Log (log (self s)) Header #
             throttle (time_Now (clock s + before_check e) - lastStart s) @
             exec_Command getShell [''-c'', Daemon_Command (conf (self s))] # rest"
proof -
  obtain r1 where r1: "calls (Run_spawn e (Run_throttle e s)) =
      calls (Run_throttle e s) @
      exec_Command getShell [''-c'', Daemon_Command (conf (self s))] # r1"
    using Run_spawn_calls [of e "Run_throttle e s"] by (auto simp: Run_throttle_frame)
  obtain r2 where r2: "calls (Run_body e s) = calls (Run_spawn e (Run_throttle e s)) @ r2"
    using Run_wait_calls [of e "others e (Run_spawn e (Run_throttle e s))"]
    by (auto simp: Run_body_def others_frame)
  show ?thesis
    using r1 r2 Run_throttle_calls [OF assms, of e] by simp
qed

lemma Run_body_prefix: "\<exists>t. calls (Run_body e s) = calls s @ t"
proof -
  obtain t1 where "calls (Run_throttle e s) = calls s @ t1"
    using Run_throttle_prefix by blast
  moreover obtain t2 where "calls (Run_spawn e (Run_throttle e s)) = calls (Run_throttle e s) @ t2"
    using Run_spawn_calls [of e "Run_throttle e s"] by blast
  moreover obtain t3 where "calls (Run_body e s) = calls (Run_spawn e (Run_throttle e s)) @ t3"
    using Run_wait_calls [of e "others e (Run_spawn e (Run_throttle e s))"]
    by (auto simp: Run_body_def others_frame)
  ultimately show ?thesis by simp
qed

lemma Run_body_cmd:
  "cmd (self (Run_body e s)) =
     (if launched (os_proc e) then Some (Suc (length (starts s))) else cmd (self s))"
  by (simp add: Run_body_def Run_wait_frame others_frame Run_spawn_def Run_throttle_def Let_def
        launched_def split: option.splits)

lemma good_init: "good (Run_init clock0 d)"
  by (simp add: good_def Run_init_def zeroTime_def time_Now_def unixToInternal_def Second_def)

lemma good_body: "good s \<Longrightarrow> good (Run_body e s)"
  unfolding good_def
  using Run_body_time [of s e] by (auto simp: spaced_snoc)

lemma good_returned: "good (s\<lparr>returned := b\<rparr>) = good s"
  by (simp add: good_def)

lemma good_loop: "good s \<Longrightarrow> good (Run_loop es s)"
  by (induction es arbitrary: s) (simp_all add: good_body good_returned)

lemma Run_loop_append: "Run_loop (es @ es') s = Run_loop es' (Run_loop es s)"
proof (induction es arbitrary: s)
  case Nil
  show ?case by (cases es') simp_all
next
  case (Cons e es)
  show ?case
  proof (cases "stop (self s)")
    case True
    then show ?thesis by (cases es') simp_all
  next
    case False
    then show ?thesis by (simp add: Cons.IH)
  qed
qed

lemma Run_loop_self:
  "conf (self (Run_loop es s)) = conf (self s) \<and> log (self (Run_loop es s)) = log (self s)"
  by (induction es arbitrary: s) (simp_all add: Run_body_self)

lemma Run_loop_prefix: "\<exists>t. calls (Run_loop es s) = calls s @ t"
proof (induction es arbitrary: s)
  case Nil
  show ?case by simp
next
  case (Cons e es)
  obtain t1 where t1: "calls (Run_body e s) = calls s @ t1"
    using Run_body_prefix by blast
  obtain t2 where "calls (Run_loop es (Run_body e s)) = calls (Run_body e s) @ t2"
    using Cons.IH by blast
  with t1 show ?case by simp
qed

lemma Run_loop_unstopped:
  "\<not> stop (self s) \<Longrightarrow> list_all (\<lambda>e. shutdown e = None) es \<Longrightarrow> \<not> returned s \<Longrightarrow> good s \<Longrightarrow>
   \<not> stop (self (Run_loop es s)) \<and> \<not> returned (Run_loop es s) \<and>
   length (starts (Run_loop es s)) = length (starts s) + length es \<and>
   invoked (calls (Run_loop es s)) = invoked (calls s) @ replicate (length es) (sh_daemon (self s))"
proof (induction es arbitrary: s)
  case Nil
  then show ?case by simp
next
  case (Cons e es)
  have g: "good (Run_body e s)" using Cons.prems by (simp add: good_body)
  have st: "starts (Run_body e s) = starts s @ [lastStart (Run_body e s)]"
    using Cons.prems Run_body_time(3) [of s e] by (simp add: good_def)
  have sh: "sh_daemon (self (Run_body e s)) = sh_daemon (self s)"
    by (simp add: sh_daemon_def Run_body_self)
  have "\<not> stop (self (Run_loop es (Run_body e s))) \<and> \<not> returned (Run_loop es (Run_body e s)) \<and>
   length (starts (Run_loop es (Run_body e s))) = length (starts (Run_body e s)) + length es \<and>
   invoked (calls (Run_loop es (Run_body e s))) =
     invoked (calls (Run_body e s)) @ replicate (length es) (sh_daemon (self (Run_body e s)))"
    using Cons.prems g by (intro Cons.IH) (simp_all add: Run_body_self)
  then show ?case
    using Cons.prems(1) st sh by (simp add: Run_body_invoked replicate_app_Cons_same)
qed

lemma Run_loop_cmd_kept:
  "cmd (self s) \<noteq> None \<Longrightarrow> cmd (self (Run_loop es s)) \<noteq> None"
  by (induction es arbitrary: s) (simp_all add: Run_body_cmd)

lemma Run_loop_cmd_none:
  "list_all (\<lambda>e. \<not> launched (os_proc e)) es \<Longrightarrow> cmd (self (Run_loop es s)) = cmd (self s)"
  by (induction es arbitrary: s) (simp_all add: Run_body_cmd)

lemma first_elapsed: "MinRestart \<le> time_Now c - zeroTime"
  by (simp add: time_Now_def zeroTime_def MinRestart_def unixToInternal_def Second_def)

lemmas run_defs = Run_def Run_init_def Run_body_def Run_throttle_def Run_spawn_def Run_wait_def
  others_def daemon_Shutdown_def Time_Sub_def time_Now_def time_Sleep_def wrap64_def
  MinRestart_def Second_def maxDuration_def minDuration_def unixToInternal_def zeroTime_def
  exits_def getShell_def

lemma Run_failing_once:
  "Run 1700000000000000000 [failing] fresh =
     \<lparr>self = fresh\<lparr>cmd := Some 1\<rparr>, lastStart = 63835596800000000016,
      clock = 1700000000000000016,
      calls = [Log (Stream TermLog ''daemon: srv'') Header,
               exec_Command ''/bin/sh'' [''-c'', ''srv''], StdoutPipe, StderrPipe,
               Go_logOutput Stderr (Stream TermLog ''daemon: srv'') Warn,
               Go_logOutput Stdout (Stream TermLog ''daemon: srv'') Say, Start, Wait,
               Log (Stream TermLog ''daemon: srv'') (Shout ''%s'' [AString ''exit status 1''])],
      starts = [63835596800000000016], waiting = False, returned = False\<rparr>"
  by (simp add: run_defs fresh_def failing_def srv_def Let_def)

text \<open>
  C4. The launch attempts of the loop of \<^verbatim>\<open>Run\<close> (the values that line 110
  assigns to \<^verbatim>\<open>lastStart\<close> just before the command is built) are at least
  \<open>MinRestart\<close>, one second, apart, each from the one before, whatever the environment
  does. At every pass, after any number of passes: the header is written, then, when
  less than \<open>MinRestart\<close> has elapsed on the clock since the previous launch attempt,
  the loop sleeps for exactly what remains of the interval, and then the command is built.
  There is no bound on the retries: as long as \<^verbatim>\<open>Shutdown\<close> is not called on the
  daemon, every pass of the list makes one more launch attempt and \<^verbatim>\<open>Run\<close> has not
  returned.
\<close>

theorem Run_restart_interval:
  "spaced (starts (Run clock0 es d)) \<and>
   (\<not> stop (self (Run clock0 es d)) \<longrightarrow>
      (\<exists>rest. calls (Run clock0 (es @ [e]) d) =
         calls (Run clock0 es d) @ Log (log d) Header #
           throttle (time_Now (clock (Run clock0 es d) + before_check e) -
                     lastStart (Run clock0 es d)) @
           exec_Command getShell [''-c'', Daemon_Command (conf d)] # rest)) \<and>
   (\<not> stop d \<and> list_all (\<lambda>e. shutdown e = None) es \<longrightarrow>
      \<not> returned (Run clock0 es d) \<and>
      length (starts (Run clock0 es d)) = length es \<and>
      invoked (calls (Run clock0 es d)) = replicate (length es) (sh_daemon d))"
proof (intro conjI impI)
  have g: "good (Run clock0 es d)"
    unfolding Run_def by (rule good_loop) (rule good_init)
  then show "spaced (starts (Run clock0 es d))"
    by (simp add: good_def)
  {
    assume ns: "\<not> stop (self (Run clock0 es d))"
    let ?s = "Run clock0 es d"
    have "calls (Run clock0 (es @ [e]) d) = calls (Run_body e ?s)"
      using ns by (simp add: Run_def Run_loop_append)
    moreover have "conf (self ?s) = conf d" "log (self ?s) = log d"
      using Run_loop_self [of es "Run_init clock0 d"] by (simp_all add: Run_def Run_init_def)
    ultimately show "\<exists>rest. calls (Run clock0 (es @ [e]) d) =
         calls ?s @ Log (log d) Header #
           throttle (time_Now (clock ?s + before_check e) - lastStart ?s) @
           exec_Command getShell [''-c'', Daemon_Command (conf d)] # rest"
      using Run_body_calls [of ?s e] g by (simp add: good_def)
  }
  {
    assume a: "\<not> stop d \<and> list_all (\<lambda>e. shutdown e = None) es"
    have "\<not> stop (self (Run_loop es (Run_init clock0 d))) \<and>
      \<not> returned (Run_loop es (Run_init clock0 d)) \<and>
      length (starts (Run_loop es (Run_init clock0 d))) =
        length (starts (Run_init clock0 d)) + length es \<and>
      invoked (calls (Run_loop es (Run_init clock0 d))) =
        invoked (calls (Run_init clock0 d)) @
        replicate (length es) (sh_daemon (self (Run_init clock0 d)))"
      using a by (intro Run_loop_unstopped good_init) (simp_all add: Run_init_def)
    then show "\<not> returned (Run clock0 es d)"
      and "length (starts (Run clock0 es d)) = length es"
      and "invoked (calls (Run clock0 es d)) = replicate (length es) (sh_daemon d)"
      by (simp_all add: Run_def Run_init_def)
  }
qed

text \<open>
  A command that fails at once, twice: the second launch attempt comes 1.000000018 s
  after the first, after a sleep of 999999995 ns.
\<close>

theorem Run_restart_interval_witness:
  "starts (Run 1700000000000000000 [failing, failing] fresh) =
     [63835596800000000016, 63835596801000000034] \<and>
   spaced (starts (Run 1700000000000000000 [failing, failing] fresh)) \<and>
   (\<exists>rest. calls (Run 1700000000000000000 [failing, failing] fresh) =
      calls (Run 1700000000000000000 [failing] fresh) @
      Log (Stream TermLog ''daemon: srv'') Header # Sleep 999999995 #
      exec_Command ''/bin/sh'' [''-c'', ''srv''] # rest) \<and>
   \<not> returned (Run 1700000000000000000 [failing, failing] fresh) \<and>
   invoked (calls (Run 1700000000000000000 [failing, failing] fresh)) =
     [(''/bin/sh'', [''-c'', ''srv'']), (''/bin/sh'', [''-c'', ''srv''])]"
proof -
  let ?c = "1700000000000000000 :: nat"
  have st: "starts (Run ?c [failing, failing] fresh) =
     [63835596800000000016, 63835596801000000034]"
    by (simp add: run_defs fresh_def failing_def srv_def Let_def)
  have sp: "spaced (starts (Run ?c [failing, failing] fresh))"
    using Run_restart_interval [of ?c "[failing, failing]" fresh failing] by (rule conjunct1)
  have ns: "\<not> stop (self (Run ?c [failing] fresh))"
    unfolding Run_failing_once by (simp add: fresh_def)
  have el: "throttle (time_Now (clock (Run ?c [failing] fresh) + before_check failing) -
                      lastStart (Run ?c [failing] fresh)) = [Sleep 999999995]"
    unfolding Run_failing_once
    by (simp add: failing_def throttle_def time_Now_def unixToInternal_def Second_def
          MinRestart_def)
  have cl: "\<exists>rest. calls (Run ?c [failing, failing] fresh) =
      calls (Run ?c [failing] fresh) @
      Log (Stream TermLog ''daemon: srv'') Header # Sleep 999999995 #
      exec_Command ''/bin/sh'' [''-c'', ''srv''] # rest"
    using Run_restart_interval [of ?c "[failing]" fresh failing] ns el
    by (simp add: fresh_def srv_def getShell_def)
  have h: "\<not> stop fresh \<and> list_all (\<lambda>e. shutdown e = None) [failing, failing]"
    by (simp add: fresh_def failing_def)
  have un: "\<not> returned (Run ?c [failing, failing] fresh) \<and>
      invoked (calls (Run ?c [failing, failing] fresh)) =
        [(''/bin/sh'', [''-c'', ''srv'']), (''/bin/sh'', [''-c'', ''srv''])]"
    using Run_restart_interval [of ?c "[failing, failing]" fresh failing, THEN conjunct2,
        THEN conjunct2] h
    by (simp add: sh_daemon_def getShell_def fresh_def srv_def numeral_2_eq_2)
  show ?thesis
    using st sp cl un by blast
qed

text \<open>
  C10. In the first pass of the loop \<^verbatim>\<open>lastStart\<close> is the zero time, the elapsed
  time that is compared with \<open>MinRestart\<close> is larger than it, and the first two
  calls of \<^verbatim>\<open>Run\<close> are the header and the construction of the command: there is no
  sleep before the first launch attempt.
\<close>

theorem Run_first_iteration:
  "MinRestart < Time_Sub (time_Now (clock0 + before_check e)) zeroTime \<and>
   (\<not> stop d \<longrightarrow>
      take 2 (calls (Run clock0 (e # es) d)) =
        [Log (log d) Header, exec_Command getShell [''-c'', Daemon_Command (conf d)]])"
proof
  show "MinRestart < Time_Sub (time_Now (clock0 + before_check e)) zeroTime"
    by (simp add: Time_Sub_def time_Now_def zeroTime_def MinRestart_def unixToInternal_def
          Second_def maxDuration_def minDuration_def)
  show "\<not> stop d \<longrightarrow>
      take 2 (calls (Run clock0 (e # es) d)) =
        [Log (log d) Header, exec_Command getShell [''-c'', Daemon_Command (conf d)]]"
  proof
    assume ns: "\<not> stop d"
    let ?s0 = "Run_init clock0 d"
    have "lastStart ?s0 \<le> time_Now (clock ?s0)"
      using good_init [of clock0 d] by (simp add: good_def)
    from Run_body_calls [OF this, of e]
    obtain rest where b: "calls (Run_body e ?s0) =
        Log (log d) Header # exec_Command getShell [''-c'', Daemon_Command (conf d)] # rest"
      using first_elapsed [of "clock0 + before_check e"]
      by (auto simp: Run_init_def throttle_def)
    obtain t where "calls (Run_loop es (Run_body e ?s0)) = calls (Run_body e ?s0) @ t"
      using Run_loop_prefix by blast
    with b ns show "take 2 (calls (Run clock0 (e # es) d)) =
        [Log (log d) Header, exec_Command getShell [''-c'', Daemon_Command (conf d)]]"
      by (simp add: Run_def Run_init_def)
  qed
qed

text \<open>The first calls of the loop for a daemon that is not stopped.\<close>

theorem Run_first_iteration_witness:
  "take 2 (calls (Run 1700000000000000000 [failing, failing] fresh)) =
     [Log (Stream TermLog ''daemon: srv'') Header, exec_Command ''/bin/sh'' [''-c'', ''srv'']]"
  using Run_first_iteration [of 1700000000000000000 failing fresh "[failing]"]
  by (simp add: fresh_def getShell_def srv_def)

subsection \<open>Restart and Shutdown\<close>

lemma range_Shutdown_slice: "fst (range_Shutdown sig js ds) = ds"
proof (induction js arbitrary: ds)
  case Nil
  show ?case by simp
next
  case (Cons i js)
  from Cons.IH [of ds] show ?case
    by (cases "range_Shutdown sig js ds") (simp add: call_on_def split: prod.splits)
qed

lemma DaemonPen_Shutdown_daemons: "daemons (fst (DaemonPen_Shutdown sig dp)) = daemons dp"
proof (cases "daemons dp")
  case None
  then show ?thesis by (simp add: DaemonPen_Shutdown_def)
next
  case (Some ds)
  with range_Shutdown_slice [of sig "[0..<length ds]" ds] show ?thesis
    by (auto simp: DaemonPen_Shutdown_def split: prod.splits)
qed

text \<open>
  C1 does not hold of the code. A pen is started with one daemon; the goroutine of
  its \<^verbatim>\<open>Run\<close> has launched the command (serial number 1) and is in \<^verbatim>\<open>c.Wait()\<close>.
  \<^verbatim>\<open>Shutdown(15)\<close> on the pen signals that command and waits for it, but the stop
  flag it sets is that of the range variable: the flag of the daemon in the collection
  is still unset. When \<^verbatim>\<open>c.Wait()\<close> returns in the goroutine, the loop condition
  holds again, a second launch attempt is made and \<^verbatim>\<open>Run\<close> does not return.
\<close>

theorem DaemonPen_Shutdown_leaves_stop_unset:
  "(let pen = fst (DaemonPen_Start plain [srv] TermLog \<lparr>daemons = None\<rparr>);
        s1 = Run_spawn killed (Run_throttle killed (Run_init 0 (hd (the (daemons pen)))));
        pen1 = pen\<lparr>daemons := Some [self s1]\<rparr>;
        pen2 = fst (DaemonPen_Shutdown 15 pen1);
        s2 = Run_loop [killed] (Run_wait killed (s1\<lparr>self := hd (the (daemons pen2))\<rparr>))
    in cmd (self s1) = Some 1 \<and> waiting s1 \<and>
       snd (DaemonPen_Shutdown 15 pen1) = [Lock, Signal 1 15, WaitOn 1, Unlock] \<and>
       map stop (the (daemons pen2)) = [False] \<and>
       \<not> returned s2 \<and> length (starts s2) = 2 \<and>
       invoked (calls s2) = [(''/bin/sh'', [''-c'', ''srv'']), (''/bin/sh'', [''-c'', ''srv''])])"
  by (simp add: DaemonPen_Start_def DaemonPen_Shutdown_def call_on_def run_defs srv_def
        killed_def Let_def)

text \<open>
  C5, as the code has it. The daemons that \<^verbatim>\<open>Start\<close> makes hold no command, and
  \<^verbatim>\<open>Run\<close> leaves it so as long as no command has been started. \<^verbatim>\<open>Restart\<close> on a
  daemon that holds no command changes nothing and makes no call: no header, no signal.
  A daemon that holds a command keeps holding one: \<^verbatim>\<open>Shutdown\<close> does not clear the
  field and neither does \<^verbatim>\<open>Run\<close>; \<^verbatim>\<open>Restart\<close> on it writes the header and
  signals the command held.
\<close>

theorem daemon_handle:
  "map_option (map cmd) (daemons (fst (DaemonPen_Start pal specs lg dp))) =
     Some (replicate (length specs) None) \<and>
   (list_all (\<lambda>e. \<not> launched (os_proc e)) es \<longrightarrow> cmd (self (Run clock0 es d)) = cmd d) \<and>
   (cmd d = None \<longrightarrow> daemon_Restart d = (d, [])) \<and>
   (cmd d = Some c \<longrightarrow>
      daemon_Restart d = (d, [Log (log d) Header, Signal c (RestartSignal (conf d))]) \<and>
      cmd (fst (daemon_Shutdown sig d)) = Some c \<and>
      cmd (self (Run clock0 es d)) \<noteq> None)"
proof (intro conjI impI)
  show "map_option (map cmd) (daemons (fst (DaemonPen_Start pal specs lg dp))) =
     Some (replicate (length specs) None)"
    by (simp add: DaemonPen_Start_def Let_def comp_def map_replicate_const)
  show "cmd (self (Run clock0 es d)) = cmd d"
    if "list_all (\<lambda>e. \<not> launched (os_proc e)) es"
    using Run_loop_cmd_none [OF that, of "Run_init clock0 d"] by (simp add: Run_def Run_init_def)
  show "daemon_Restart d = (d, [])" if "cmd d = None"
    using that by (simp add: daemon_Restart_def)
  show "daemon_Restart d = (d, [Log (log d) Header, Signal c (RestartSignal (conf d))])"
    if "cmd d = Some c"
    using that by (simp add: daemon_Restart_def)
  show "cmd (fst (daemon_Shutdown sig d)) = Some c" if "cmd d = Some c"
    using that by (simp add: daemon_Shutdown_def)
  show "cmd (self (Run clock0 es d)) \<noteq> None" if "cmd d = Some c"
    using that Run_loop_cmd_kept [of "Run_init clock0 d" es] by (simp add: Run_def Run_init_def)
qed

text \<open>A daemon before its first start, and the same daemon holding the command 1.\<close>

theorem daemon_handle_witness:
  "cmd (self (Run 0 [nostart] fresh)) = None \<and>
   daemon_Restart fresh = (fresh, []) \<and>
   daemon_Restart (fresh\<lparr>cmd := Some 1\<rparr>) =
     (fresh\<lparr>cmd := Some 1\<rparr>, [Log (Stream TermLog ''daemon: srv'') Header, Signal 1 1]) \<and>
   cmd (fst (daemon_Shutdown 15 (fresh\<lparr>cmd := Some 1\<rparr>))) = Some 1 \<and>
   cmd (self (Run 0 [nostart] (fresh\<lparr>cmd := Some 1\<rparr>))) \<noteq> None"
  using daemon_handle [of plain "[srv]" TermLog "\<lparr>daemons = None\<rparr>" "[nostart]" 0 fresh 1 15]
        daemon_handle [of plain "[srv]" TermLog "\<lparr>daemons = None\<rparr>" "[nostart]" 0
                          "fresh\<lparr>cmd := Some 1\<rparr>" 1 15]
  by (simp add: fresh_def nostart_def launched_def exits_def srv_def)

text \<open>
  A daemon whose command was started and then, \<^verbatim>\<open>Shutdown(15)\<close> having been called
  on the daemon, ended by the signal: \<^verbatim>\<open>Run\<close> has returned, the stop flag is set,
  the command is still held, and \<^verbatim>\<open>Restart\<close> writes a header and signals it.
\<close>

theorem Restart_after_shutdown_emits_header:
  "(let s = Run 0 [killed\<lparr>shutdown := Some 15\<rparr>] fresh
    in returned s \<and> stop (self s) \<and> cmd (self s) = Some 1 \<and>
       snd (daemon_Restart (self s)) = [Log (Stream TermLog ''daemon: srv'') Header, Signal 1 1])"
  by (simp add: run_defs daemon_Restart_def fresh_def killed_def srv_def Let_def)

subsection \<open>logOutput\<close>

lemma takeWhile_line: "LF \<notin> set l \<Longrightarrow> takeWhile (\<lambda>c. c \<noteq> LF) (l @ LF # rest) = l"
  by (induction l) auto

lemma takeWhile_tail: "LF \<notin> set l \<Longrightarrow> takeWhile (\<lambda>c. c \<noteq> LF) l = l"
  by (induction l) auto

lemma ReadLine_short:
  assumes "LF \<notin> set l" and "length l < n"
  shows "ReadLine n (l @ LF # rest) final = ((chomp l, False, None), rest)"
proof (cases "l = []")
  case True
  then show ?thesis using assms by (simp add: ReadLine_def ReadSlice_def chomp_def)
next
  case False
  then have "l ! (length l - Suc 0) = last l" by (simp add: last_conv_nth)
  moreover have "(l @ [LF]) ! (length l - Suc 0) = l ! (length l - Suc 0)"
    using False by (simp add: nth_append)
  ultimately show ?thesis
    using assms False
    by (auto simp: ReadLine_def ReadSlice_def takeWhile_line chomp_def Let_def nth_append
          butlast_conv_take)
qed

lemma ReadLine_long:
  assumes "LF \<notin> set l" and "n \<le> length l" and "0 < n"
  shows "ReadLine n (l @ LF # rest) final =
           (if l ! (n - 1) = CR then ((take (n - 1) l, True, None), drop (n - 1) l @ LF # rest)
            else ((take n l, True, None), drop n l @ LF # rest))"
proof -
  have d: "drop (n - 1) l = l ! (n - 1) # drop n l"
    using assms Cons_nth_drop_Suc [of "n - 1" l] by simp
  have m: "min (length l) n = n" using assms by simp
  show ?thesis
    using assms d
    by (auto simp: ReadLine_def ReadSlice_def takeWhile_line Let_def m)
qed

lemma ReadLine_tail:
  assumes "LF \<notin> set t" and "length t < n"
  shows "ReadLine n t final =
           (if t = [] then (([], False, Some final), []) else ((t, False, None), []))"
proof (cases "t = []")
  case True
  then show ?thesis using assms by (simp add: ReadLine_def ReadSlice_def)
next
  case False
  then have "t ! (length t - Suc 0) \<noteq> LF"
    using assms by (metis One_nat_def last_conv_nth last_in_set)
  then show ?thesis
    using assms False
    by (auto simp: ReadLine_def ReadSlice_def takeWhile_tail Let_def)
qed


lemma loop_short:
  "LF \<notin> set l \<Longrightarrow> length l < defaultBufSize \<Longrightarrow>
   logOutput_loop (l @ LF # rest) final out = out (chomp l) [] # logOutput_loop rest final out"
  by (subst logOutput_loop.simps) (simp add: ReadLine_short)

lemma loop_empty: "logOutput_loop [] final out = []"
  by (subst logOutput_loop.simps) (simp add: ReadLine_tail defaultBufSize_def)

lemma loop_tail:
  assumes "LF \<notin> set t" and "length t < defaultBufSize"
  shows "logOutput_loop t final out = (if t = [] then [] else [out t []])"
  using assms by (subst logOutput_loop.simps) (simp add: ReadLine_tail loop_empty)

lemma loop_lines:
  "\<forall>l\<in>set ls. LF \<notin> set l \<and> length l < defaultBufSize \<Longrightarrow>
   logOutput_loop (concat (map terminated ls) @ rest) final out =
     map (\<lambda>l. out (chomp l) []) ls @ logOutput_loop rest final out"
  by (induction ls) (simp_all add: terminated_def loop_short)

lemma chomp_drop: "k < length l \<Longrightarrow> take k l @ chomp (drop k l) = chomp l"
proof -
  assume k: "k < length l"
  then have ne: "drop k l \<noteq> []" "l \<noteq> []" by auto
  have "butlast (take k l @ drop k l) = take k l @ butlast (drop k l)"
    using ne by (simp only: butlast_append if_False)
  then have "butlast l = take k l @ butlast (drop k l)"
    by (simp only: append_take_drop_id)
  then show ?thesis
    using k ne by (simp add: chomp_def)
qed

lemma length_chomp: "length (chomp l) \<le> length l"
  by (simp add: chomp_def)

lemma loop_pieces:
  "LF \<notin> set l \<Longrightarrow>
   \<exists>ps. logOutput_loop (l @ LF # rest) final out =
           map (\<lambda>p. out p []) ps @ logOutput_loop rest final out \<and>
        concat ps = chomp l \<and>
        (length l < defaultBufSize \<longrightarrow> ps = [chomp l]) \<and>
        (defaultBufSize \<le> length l \<longrightarrow> 2 \<le> length ps)"
proof (induction l rule: length_induct)
  case (1 l)
  let ?N = defaultBufSize
  show ?case
  proof (cases "length l < ?N")
    case True
    then show ?thesis
      using 1 by (intro exI [of _ "[chomp l]"]) (simp add: loop_short)
  next
    case False
    then have long: "?N \<le> length l" by simp
    have N: "2 \<le> ?N" by (simp add: defaultBufSize_def)
    define k where "k = (if l ! (?N - 1) = CR then ?N - 1 else ?N)"
    have k: "0 < k" "k \<le> ?N" "k \<le> length l"
      using N long by (auto simp: k_def)
    have step: "logOutput_loop (l @ LF # rest) final out =
        out (take k l) [] # logOutput_loop (drop k l @ LF # rest) final out"
      using 1(2) long N
      by (subst logOutput_loop.simps) (simp add: ReadLine_long k_def)
    have "length (drop k l) < length l" using k long N by simp
    moreover have "LF \<notin> set (drop k l)"
      using 1(2) by (meson in_set_dropD)
    ultimately obtain ps where ps:
      "logOutput_loop (drop k l @ LF # rest) final out =
         map (\<lambda>p. out p []) ps @ logOutput_loop rest final out"
      "concat ps = chomp (drop k l)"
      "length (drop k l) < ?N \<longrightarrow> ps = [chomp (drop k l)]"
      "?N \<le> length (drop k l) \<longrightarrow> 2 \<le> length ps"
      using 1(1) by blast
    have ne: "ps \<noteq> []"
      using ps(3,4) by (cases "length (drop k l) < ?N") auto
    have cat: "take k l @ chomp (drop k l) = chomp l"
    proof (cases "k < length l")
      case True
      then show ?thesis by (rule chomp_drop)
    next
      case False
      then have kl: "k = length l" using k by simp
      then have "k = ?N" "l ! (?N - 1) \<noteq> CR"
        using long N by (auto simp: k_def split: if_splits)
      moreover have "l \<noteq> []" using long N by auto
      ultimately have "last l \<noteq> CR"
        using kl by (simp add: last_conv_nth)
      then show ?thesis using kl by (simp add: chomp_def)
    qed
    show ?thesis
      using step ps(1,2) ne cat long
      by (intro exI [of _ "take k l # ps"]) (cases ps, auto)
  qed
qed

text \<open>
  C8. \<^verbatim>\<open>logOutput\<close> passes to its sink what each \<^verbatim>\<open>ReadLine\<close> returns and takes
  no notice of \<^verbatim>\<open>isPrefix\<close>. When every line of the stream, with the line feed that
  ends it, fits the buffer of the reader, the sink is called exactly once for each
  line, in the order of the stream, with the line without its end (and once more for
  what follows the last line feed, if anything does); then the loop ends, whatever the
  error at the end of the stream is, and nothing is made of that error. A line that,
  with its line feed, is longer than the buffer is passed to the sink in two or more
  separate calls, the pieces of the line in order, and not in one call.
\<close>

theorem logOutput_line_by_line:
  "((\<forall>l\<in>set ls. LF \<notin> set l \<and> length (terminated l) \<le> defaultBufSize) \<and>
    LF \<notin> set t \<and> length t < defaultBufSize \<longrightarrow>
      logOutput \<lparr>content = concat (map terminated ls) @ t, closing = final\<rparr> out =
        map (\<lambda>l. out (chomp l) []) ls @ (if t = [] then [] else [out t []])) \<and>
   (LF \<notin> set l \<and> defaultBufSize < length (terminated l) \<longrightarrow>
      (\<exists>ps. 2 \<le> length ps \<and> concat ps = chomp l \<and>
         logOutput \<lparr>content = terminated l @ rest, closing = final\<rparr> out =
           map (\<lambda>p. out p []) ps @ logOutput \<lparr>content = rest, closing = final\<rparr> out))"
proof (intro conjI impI)
  assume a: "(\<forall>l\<in>set ls. LF \<notin> set l \<and> length (terminated l) \<le> defaultBufSize) \<and>
    LF \<notin> set t \<and> length t < defaultBufSize"
  then have "\<forall>l\<in>set ls. LF \<notin> set l \<and> length l < defaultBufSize"
    by (auto simp: terminated_def)
  from loop_lines [OF this, of t final out] a
  show "logOutput \<lparr>content = concat (map terminated ls) @ t, closing = final\<rparr> out =
        map (\<lambda>l. out (chomp l) []) ls @ (if t = [] then [] else [out t []])"
    by (simp add: logOutput_def loop_tail)
next
  assume a: "LF \<notin> set l \<and> defaultBufSize < length (terminated l)"
  then have "defaultBufSize \<le> length l" by (simp add: terminated_def)
  with a loop_pieces [of l rest final out]
  show "\<exists>ps. 2 \<le> length ps \<and> concat ps = chomp l \<and>
         logOutput \<lparr>content = terminated l @ rest, closing = final\<rparr> out =
           map (\<lambda>p. out p []) ps @ logOutput \<lparr>content = rest, closing = final\<rparr> out"
    by (auto simp: logOutput_def terminated_def)
qed

text \<open>
  The output of \<^verbatim>\<open>printf 'a\nb\n'\<close> gives two calls in order. A line of 5000 letters
  is passed to the sink in at least two pieces.
\<close>

theorem logOutput_line_by_line_witness:
  "logOutput \<lparr>content = ''a\<newline>b\<newline>'', closing = Error ''EOF''\<rparr> Say = [Say ''a'' [], Say ''b'' []] \<and>
   (\<exists>ps. 2 \<le> length ps \<and> concat ps = replicate 5000 CHR ''a'' \<and>
      logOutput \<lparr>content = replicate 5000 CHR ''a'' @ ''\<newline>b\<newline>'', closing = Error ''EOF''\<rparr> Warn =
        map (\<lambda>p. Warn p []) ps @ logOutput \<lparr>content = ''b\<newline>'', closing = Error ''EOF''\<rparr> Warn)"
  using logOutput_line_by_line [of "[''a'', ''b'']" "[]" "Error ''EOF''" Say
          "replicate 5000 CHR ''a''" "''b\<newline>''"]
        logOutput_line_by_line [of "[''a'', ''b'']" "[]" "Error ''EOF''" Warn
          "replicate 5000 CHR ''a''" "''b\<newline>''"]
  by (simp add: terminated_def chomp_def defaultBufSize_def)

end
